theory Spec2Isabelle
  imports Main "HOL-Library.AList" "HOL-Library.Word"
begin

unbundle bit_operations_syntax

section \<open>Data model\<close>

text \<open>
  A Go value of type \<^verbatim>\<open>interface{}\<close>, as the request metadata and the option bags
  carry it. \<open>VNil\<close> is the nil interface, which is also what indexing a Go map at a key
  it does not hold returns.
\<close>

datatype val =
    VNil
  | VBool bool
  | VString string
  | VInt int
  | VList "val list"
  | VMap "(string \<times> val) list"

text \<open>
  Modelled from the spec: the declarations of the two denial kinds
  (\<^verbatim>\<open>NewErrRequestDeniedExplicit\<close>, \<^verbatim>\<open>NewErrRequestDeniedImplicit\<close>) are not in the
  source file. Each wraps the error it is given; \<open>ErrorString\<close> is the plain error of
  \<^verbatim>\<open>errors.New\<close> and \<^verbatim>\<open>fmt.Errorf\<close>. Every Go \<^verbatim>\<open>error\<close> of the model, also those of
  the policy manager, the matcher and the decoder, is a value of this one type.
\<close>

datatype error =
    ErrorString string
  | ErrRequestDeniedExplicit error
  | ErrRequestDeniedImplicit error

definition errors_New :: "string \<Rightarrow> error" where
  "errors_New msg = ErrorString msg"

definition NewErrRequestDeniedExplicit :: "error \<Rightarrow> error" where
  "NewErrRequestDeniedExplicit err = ErrRequestDeniedExplicit err"

definition NewErrRequestDeniedImplicit :: "error \<Rightarrow> error" where
  "NewErrRequestDeniedImplicit err = ErrRequestDeniedImplicit err"

datatype error_kind = ExplicitDenial | ImplicitDenial | OtherError

fun kind_of :: "error \<Rightarrow> error_kind" where
  "kind_of (ErrRequestDeniedExplicit _) = ExplicitDenial"
| "kind_of (ErrRequestDeniedImplicit _) = ImplicitDenial"
| "kind_of (ErrorString _) = OtherError"

text \<open>
  Modelled from the spec: the declaration of \<^verbatim>\<open>Request\<close> is not in the source file.
  The fields are the ones the source reads (\<^verbatim>\<open>r.Role\<close>, \<^verbatim>\<open>r.Action\<close>,
  \<^verbatim>\<open>r.Resource\<close>, \<^verbatim>\<open>r.Scope\<close>, \<^verbatim>\<open>r.Context\<close>); the context is the carrier of the
  metadata, a Go map from strings to values.
\<close>

record Request =
  Resource :: string
  Action :: string
  Role :: string
  Scope :: string
  Context :: "string \<rightharpoonup> val"

text \<open>
  Modelled from the spec: \<^verbatim>\<open>RequestMetadataFromContext\<close> is not in the source file.
  It hands out the metadata map the context carries.
\<close>

definition RequestMetadataFromContext :: "(string \<rightharpoonup> val) \<Rightarrow> (string \<rightharpoonup> val)" where
  "RequestMetadataFromContext ctx = ctx"

text \<open>Go's \<^verbatim>\<open>meta[key]\<close>: the zero value, a nil interface, at a missing key.\<close>

definition index_meta :: "(string \<rightharpoonup> val) \<Rightarrow> string \<Rightarrow> val" where
  "index_meta meta key = (case meta key of None \<Rightarrow> VNil | Some v \<Rightarrow> v)"

section \<open>Conditions\<close>

text \<open>
  The \<^verbatim>\<open>Condition\<close> interface: the three built-in implementations with their
  configuration, and \<open>CustomCondition\<close> for any other implementation, given by its name
  and its \<^verbatim>\<open>Meets\<close> method.
\<close>

datatype Condition =
    BoolCondition bool
  | RoleEqualsCondition
  | IPWhitelistCondition "string list"
  | CustomCondition string "val \<Rightarrow> Request \<Rightarrow> bool"

fun Condition_Name :: "Condition \<Rightarrow> string" where
  "Condition_Name (BoolCondition _) = ''bool''"
| "Condition_Name RoleEqualsCondition = ''role_equals''"
| "Condition_Name (IPWhitelistCondition _) = ''ip_whitelist''"
| "Condition_Name (CustomCondition n _) = n"

fun is_builtin :: "Condition \<Rightarrow> bool" where
  "is_builtin (CustomCondition _ _) = False"
| "is_builtin _ = True"

text \<open>
  The three functions of Go's \<^verbatim>\<open>net\<close> package that \<^verbatim>\<open>IPWhitelistCondition.Meets\<close>
  calls are parameters: \<open>ParseCIDR\<close> is \<open>None\<close> where Go returns an error, \<open>ParseIP\<close> is
  \<open>None\<close> where Go returns nil.
\<close>

record ('n, 'ip) netlib =
  ParseCIDR :: "string \<Rightarrow> 'n option"
  ParseIP :: "string \<Rightarrow> 'ip option"
  Contains :: "'n \<Rightarrow> 'ip \<Rightarrow> bool"

text \<open>The loop of \<^verbatim>\<open>IPWhitelistCondition.Meets\<close> over \<^verbatim>\<open>c.Networks\<close>.\<close>

fun IPWhitelist_loop :: "('n, 'ip) netlib \<Rightarrow> string list \<Rightarrow> string \<Rightarrow> bool" where
  "IPWhitelist_loop L [] ip = False"
| "IPWhitelist_loop L (ns # rest) ip =
     (case ParseCIDR L ns of
        None \<Rightarrow> False
      | Some cidr \<Rightarrow>
          (case ParseIP L ip of
             None \<Rightarrow> False
           | Some tip \<Rightarrow>
               if Contains L cidr tip then True else IPWhitelist_loop L rest ip))"

fun Meets :: "('n, 'ip) netlib \<Rightarrow> Condition \<Rightarrow> val \<Rightarrow> Request \<Rightarrow> bool" where
  "Meets L (BoolCondition cv) v r = (case v of VBool b \<Rightarrow> b = cv | _ \<Rightarrow> False)"
| "Meets L RoleEqualsCondition v r = (case v of VString s \<Rightarrow> s = Role r | _ \<Rightarrow> False)"
| "Meets L (IPWhitelistCondition nets) v r =
     (case v of VString ip \<Rightarrow> IPWhitelist_loop L nets ip | _ \<Rightarrow> False)"
| "Meets L (CustomCondition n f) v r = f v r"

section \<open>Policies, matcher and enforcer\<close>

datatype PolicyEffect = PolicyEffectAllow | PolicyEffectDeny

text \<open>The Go map \<^verbatim>\<open>Conditions\<close>, as the list of its entries in the order a \<^verbatim>\<open>range\<close> visits them.\<close>

type_synonym Conditions = "(string \<times> Condition) list"

text \<open>
  Modelled from the spec: the \<^verbatim>\<open>Policy\<close> interface is not in the source file. A policy
  is the record of what its methods \<^verbatim>\<open>ID\<close>, \<^verbatim>\<open>Effect\<close>, \<^verbatim>\<open>Actions\<close>, \<^verbatim>\<open>Roles\<close>,
  \<^verbatim>\<open>Resources\<close>, \<^verbatim>\<open>Scopes\<close> and \<^verbatim>\<open>Conditions\<close> return; the patterns are strings.
\<close>

record Policy =
  ID :: string
  Effect :: PolicyEffect
  Actions :: "string list"
  Roles :: "string list"
  Resources :: "string list"
  Scopes :: "string list"
  Conditions :: Conditions

text \<open>
  Modelled from the spec: the \<^verbatim>\<open>Matcher\<close> interface is not in the source file. Its two
  methods return \<^verbatim>\<open>(bool, error)\<close>: \<open>Inl\<close> is a non-nil error.
\<close>

record Matcher =
  MatchPolicy :: "Policy \<Rightarrow> string list \<Rightarrow> string \<Rightarrow> error + bool"
  MatchRole :: "string \<Rightarrow> string \<Rightarrow> error + bool"

text \<open>
  The struct \<^verbatim>\<open>enforcer\<close>. The manager is its \<^verbatim>\<open>FindByRequest\<close> method; the auditor is
  of an interface the source never calls, \<open>None\<close> when nil.
\<close>

record 'aud enforcer =
  manager :: "Request \<Rightarrow> error + Policy list"
  matcher :: Matcher
  auditor :: "'aud option"

definition NewEnforcer ::
  "(Request \<Rightarrow> error + Policy list) \<Rightarrow> Matcher \<Rightarrow> 'aud option \<Rightarrow> 'aud enforcer" where
  "NewEnforcer mgr mt aud = \<lparr>manager = mgr, matcher = mt, auditor = aud\<rparr>"

text \<open>The loop of \<^verbatim>\<open>checkConditions\<close> over the entries of \<^verbatim>\<open>p.Conditions()\<close>.\<close>

fun checkConditions_loop :: "('n, 'ip) netlib \<Rightarrow> Conditions \<Rightarrow> Request \<Rightarrow> bool" where
  "checkConditions_loop L [] r = True"
| "checkConditions_loop L ((key, cond) # rest) r =
     (let meta = RequestMetadataFromContext (Context r) in
      if \<not> Meets L cond (index_meta meta key) r then False
      else checkConditions_loop L rest r)"

definition checkConditions ::
  "('n, 'ip) netlib \<Rightarrow> 'aud enforcer \<Rightarrow> Policy \<Rightarrow> Request \<Rightarrow> bool" where
  "checkConditions L e p r = checkConditions_loop L (Conditions p) r"

text \<open>The role loop of \<^verbatim>\<open>evalPolicy\<close>: the value of \<^verbatim>\<open>rm\<close> after it, or the matcher's error.\<close>

fun matchRoles :: "Matcher \<Rightarrow> string list \<Rightarrow> string \<Rightarrow> error + bool" where
  "matchRoles m [] role = Inr False"
| "matchRoles m (rp # rest) role =
     (case MatchRole m rp role of
        Inl err \<Rightarrow> Inl err
      | Inr b \<Rightarrow> if b then Inr True else matchRoles m rest role)"

definition evalPolicy ::
  "('n, 'ip) netlib \<Rightarrow> 'aud enforcer \<Rightarrow> Request \<Rightarrow> Policy \<Rightarrow> error + bool" where
  "evalPolicy L e r p =
     (case MatchPolicy (matcher e) p (Actions p) (Action r) of
        Inl err \<Rightarrow> Inl err
      | Inr am \<Rightarrow>
          if \<not> am then Inr False
          else
            (case matchRoles (matcher e) (Roles p) (Role r) of
               Inl err \<Rightarrow> Inl err
             | Inr rm \<Rightarrow>
                 if \<not> rm then Inr False
                 else
                   (case MatchPolicy (matcher e) p (Resources p) (Resource r) of
                      Inl err \<Rightarrow> Inl err
                    | Inr resm \<Rightarrow>
                        if \<not> resm then Inr False
                        else
                          (case MatchPolicy (matcher e) p (Scopes p) (Scope r) of
                             Inl err \<Rightarrow> Inl err
                           | Inr scm \<Rightarrow>
                               if \<not> scm then Inr False
                               else if \<not> checkConditions L e p r then Inr False
                               else Inr True))))"

definition denied_by :: "Policy \<Rightarrow> error" where
  "denied_by p =
     NewErrRequestDeniedExplicit (ErrorString (''access denied by policy '' @ ID p))"

definition denied_implicitly :: error where
  "denied_implicitly =
     NewErrRequestDeniedImplicit (errors_New ''access denied because no policy allowed access'')"

text \<open>
  The loop of \<^verbatim>\<open>Enforce\<close> over the candidates, from the current \<^verbatim>\<open>allow\<close> and
  \<^verbatim>\<open>matched\<close>: \<open>Inl\<close> is the error of a \<^verbatim>\<open>return\<close> inside the loop, \<open>Inr\<close> the two
  variables when the loop has run to its end.
\<close>

fun Enforce_loop ::
  "('n, 'ip) netlib \<Rightarrow> 'aud enforcer \<Rightarrow> Request \<Rightarrow> Policy list \<Rightarrow> bool \<Rightarrow> Policy list
     \<Rightarrow> error + (bool \<times> Policy list)" where
  "Enforce_loop L e r [] allow matched = Inr (allow, matched)"
| "Enforce_loop L e r (p # rest) allow matched =
     (case evalPolicy L e r p of
        Inl err \<Rightarrow> Inl err
      | Inr match \<Rightarrow>
          if \<not> match then Enforce_loop L e r rest allow matched
          else if Effect p = PolicyEffectDeny then Inl (denied_by p)
          else Enforce_loop L e r rest True (matched @ [p]))"

text \<open>
  \<^verbatim>\<open>Enforce\<close>: \<open>None\<close> is the nil error. The package variable \<^verbatim>\<open>DefaultPolicyEffect\<close>,
  declared outside the source file, is the first parameter.
\<close>

definition Enforce ::
  "PolicyEffect \<Rightarrow> ('n, 'ip) netlib \<Rightarrow> 'aud enforcer \<Rightarrow> Request \<Rightarrow> error option" where
  "Enforce DefaultPolicyEffect L e r =
     (case manager e r of
        Inl err \<Rightarrow> Some err
      | Inr pol \<Rightarrow>
          (case Enforce_loop L e r pol False [] of
             Inl err \<Rightarrow> Some err
           | Inr (allow, matched) \<Rightarrow>
               if \<not> allow \<and> DefaultPolicyEffect = PolicyEffectDeny
               then Some denied_implicitly
               else None))"

section \<open>Building conditions\<close>

record ConditionOptions =
  Name :: string
  Type :: string
  Options :: "(string \<times> val) list"

text \<open>
  A \<^verbatim>\<open>ConditionBuilder\<close> is given by the condition it returns, a registry is the Go map
  from type names to builders.
\<close>

type_synonym ConditionRegistry = "string \<rightharpoonup> Condition"

definition default_builders :: ConditionRegistry where
  "default_builders =
     [Condition_Name (BoolCondition False) \<mapsto> BoolCondition False,
      Condition_Name RoleEqualsCondition \<mapsto> RoleEqualsCondition,
      Condition_Name (IPWhitelistCondition []) \<mapsto> IPWhitelistCondition []]"

definition NewConditionRegistry :: "ConditionRegistry list \<Rightarrow> ConditionRegistry" where
  "NewConditionRegistry conds = foldl (++) default_builders conds"

text \<open>
  \<^verbatim>\<open>mapstructure.Decode\<close> is a library outside the repository: the decoder is a
  parameter, from the option bag and the fresh condition to the decoded condition or an
  error.
\<close>

type_synonym decoder = "(string \<times> val) list \<Rightarrow> Condition \<Rightarrow> error + Condition"

text \<open>The loop of \<^verbatim>\<open>NewConditions\<close> over \<^verbatim>\<open>opts\<close>, from the current map \<^verbatim>\<open>cond\<close>.\<close>

fun NewConditions_loop ::
  "decoder \<Rightarrow> ConditionRegistry \<Rightarrow> ConditionOptions list \<Rightarrow> Conditions \<Rightarrow> error + Conditions" where
  "NewConditions_loop dec reg [] cond = Inr cond"
| "NewConditions_loop dec reg (co # opts) cond =
     (case reg (Type co) of
        None \<Rightarrow> NewConditions_loop dec reg opts cond
      | Some cf \<Rightarrow>
          if length (Options co) > 0 then
            (case dec (Options co) cf of
               Inl err \<Rightarrow> Inl err
             | Inr nc \<Rightarrow> NewConditions_loop dec reg opts (AList.update (Name co) nc cond))
          else NewConditions_loop dec reg opts (AList.update (Name co) cf cond))"

text \<open>The registry in use after the nil check: \<open>None\<close> is the nil registry.\<close>

definition registry_or_default :: "ConditionRegistry option \<Rightarrow> ConditionRegistry" where
  "registry_or_default reg = (case reg of None \<Rightarrow> NewConditionRegistry [] | Some g \<Rightarrow> g)"

definition NewConditions ::
  "decoder \<Rightarrow> ConditionOptions list \<Rightarrow> ConditionRegistry option \<Rightarrow> error + Conditions" where
  "NewConditions dec opts reg = NewConditions_loop dec (registry_or_default reg) opts []"

section \<open>An instance of the address library for IPv4 text\<close>

text \<open>
  What Go's \<^verbatim>\<open>net.ParseIP\<close>, \<^verbatim>\<open>net.ParseCIDR\<close> and \<^verbatim>\<open>IPNet.Contains\<close> compute on
  dotted-decimal IPv4 text: four decimal fields of value at most 255 without leading
  zeros, for a network followed by \<^verbatim>\<open>/\<close> and a prefix length of at most 32. An address
  is its 32-bit value, a network its masked number and its mask. Text of any other form
  (IPv6 included) is not parsed by this instance; it is used on IPv4 text only.
\<close>

definition digit_of :: "char \<Rightarrow> nat option" where
  "digit_of c =
     (let n = (of_char c :: nat) in if 48 \<le> n \<and> n \<le> 57 then Some (n - 48) else None)"

fun parse_dec_from :: "nat \<Rightarrow> string \<Rightarrow> nat option" where
  "parse_dec_from n [] = Some n"
| "parse_dec_from n (c # s) =
     (case digit_of c of None \<Rightarrow> None | Some d \<Rightarrow> parse_dec_from (n * 10 + d) s)"

definition parse_dec :: "string \<Rightarrow> nat option" where
  "parse_dec s = (if s = [] then None else parse_dec_from 0 s)"

definition parse_octet :: "string \<Rightarrow> nat option" where
  "parse_octet s =
     (case parse_dec s of
        None \<Rightarrow> None
      | Some n \<Rightarrow> if (length s > 1 \<and> hd s = CHR ''0'') \<or> n > 255 then None else Some n)"

fun split_on :: "char \<Rightarrow> string \<Rightarrow> string list" where
  "split_on sep [] = [[]]"
| "split_on sep (c # s) =
     (if c = sep then [] # split_on sep s
      else (case split_on sep s of f # fs \<Rightarrow> (c # f) # fs | [] \<Rightarrow> [[c]]))"

definition ipv4_ParseIP :: "string \<Rightarrow> 32 word option" where
  "ipv4_ParseIP s =
     (case map parse_octet (split_on CHR ''.'' s) of
        [Some a, Some b, Some c, Some d] \<Rightarrow>
          Some (word_of_nat (((a * 256 + b) * 256 + c) * 256 + d))
      | _ \<Rightarrow> None)"

text \<open>The mask of 32 bits whose leading \<open>ones\<close> bits are set.\<close>

definition CIDRMask :: "nat \<Rightarrow> 32 word" where
  "CIDRMask ones = word_of_nat (2 ^ 32 - 2 ^ (32 - ones))"

definition ipv4_ParseCIDR :: "string \<Rightarrow> (32 word \<times> 32 word) option" where
  "ipv4_ParseCIDR s =
     (if CHR ''/'' \<notin> set s then None
      else
        (case ipv4_ParseIP (takeWhile (\<lambda>c. c \<noteq> CHR ''/'') s) of
           None \<Rightarrow> None
         | Some a \<Rightarrow>
             (case parse_dec (tl (dropWhile (\<lambda>c. c \<noteq> CHR ''/'') s)) of
                None \<Rightarrow> None
              | Some n \<Rightarrow>
                  if n > 32 then None else Some (a AND CIDRMask n, CIDRMask n))))"

definition ipv4_Contains :: "32 word \<times> 32 word \<Rightarrow> 32 word \<Rightarrow> bool" where
  "ipv4_Contains n ip = (fst n AND snd n = ip AND snd n)"

definition ipv4_net :: "(32 word \<times> 32 word, 32 word) netlib" where
  "ipv4_net =
     \<lparr>ParseCIDR = ipv4_ParseCIDR, ParseIP = ipv4_ParseIP, Contains = ipv4_Contains\<rparr>"

section \<open>Example requests, policies and collaborators\<close>

text \<open>The request and the two policies of the scenarios of the specification.\<close>

definition req_admin :: Request where
  "req_admin =
     \<lparr>Resource = ''doc1'', Action = ''read'', Role = ''admin'', Scope = ''default'',
      Context = Map.empty\<rparr>"

definition pol_P1 :: Policy where
  "pol_P1 =
     \<lparr>ID = ''P1'', Effect = PolicyEffectAllow, Actions = [''read''], Roles = [''admin''],
      Resources = [''*''], Scopes = [''default''], Conditions = []\<rparr>"

definition pol_P2 :: Policy where
  "pol_P2 =
     \<lparr>ID = ''P2'', Effect = PolicyEffectDeny, Actions = [''read''], Roles = [''admin''],
      Resources = [''doc1''], Scopes = [''default''], Conditions = []\<rparr>"

text \<open>
  A matcher for the examples: a pattern matches the value it is equal to, \<^verbatim>\<open>*\<close>
  matches every value, and a pattern set that holds the pattern \<^verbatim>\<open>[\<close> is malformed.
\<close>

definition bad_pattern :: error where
  "bad_pattern = ErrorString ''malformed pattern''"

definition star_matcher :: Matcher where
  "star_matcher =
     \<lparr>MatchPolicy = (\<lambda>p pats v.
        if ''['' \<in> set pats then Inl bad_pattern
        else Inr (v \<in> set pats \<or> ''*'' \<in> set pats)),
      MatchRole = (\<lambda>rp role.
        if rp = ''['' then Inl bad_pattern else Inr (rp = role \<or> rp = ''*''))\<rparr>"

definition pol_malformed :: Policy where
  "pol_malformed =
     \<lparr>ID = ''P0'', Effect = PolicyEffectAllow, Actions = [''[''], Roles = [''admin''],
      Resources = [''*''], Scopes = [''default''], Conditions = []\<rparr>"

definition enforcer_of :: "Policy list \<Rightarrow> unit enforcer" where
  "enforcer_of pol = NewEnforcer (\<lambda>r. Inr pol) star_matcher None"

definition enforcer_failing :: "error \<Rightarrow> unit enforcer" where
  "enforcer_failing err = NewEnforcer (\<lambda>r. Inl err) star_matcher None"

text \<open>A matcher that accepts everything, also an empty pattern set.\<close>

definition accept_all :: Matcher where
  "accept_all = \<lparr>MatchPolicy = (\<lambda>p pats v. Inr True), MatchRole = (\<lambda>rp role. Inr True)\<rparr>"

text \<open>
  A decoder for the examples: it sets the value of a bool condition from the entry
  \<^verbatim>\<open>value\<close> of the bag and fails on every other input.
\<close>

definition cannot_decode :: error where
  "cannot_decode = ErrorString ''cannot decode''"

definition example_decoder :: decoder where
  "example_decoder bag c =
     (case map_of bag ''value'' of
        Some (VBool b) \<Rightarrow>
          (case c of BoolCondition _ \<Rightarrow> Inr (BoolCondition b) | _ \<Rightarrow> Inl cannot_decode)
      | _ \<Rightarrow> Inl cannot_decode)"

text \<open>Option entries for the examples.\<close>

definition opt_unknown :: ConditionOptions where
  "opt_unknown = \<lparr>Name = ''k'', Type = ''nope'', Options = []\<rparr>"

definition opt_bool :: ConditionOptions where
  "opt_bool = \<lparr>Name = ''k'', Type = ''bool'', Options = [(''value'', VBool True)]\<rparr>"

definition opt_bad :: ConditionOptions where
  "opt_bad = \<lparr>Name = ''b'', Type = ''bool'', Options = [(''value'', VString ''yes'')]\<rparr>"

definition opt_plain :: ConditionOptions where
  "opt_plain = \<lparr>Name = ''mine'', Type = ''role_equals'', Options = []\<rparr>"

section \<open>Predicates of the statements\<close>

text \<open>
  The matcher returns the error \<open>err\<close> in a call that \<^verbatim>\<open>evalPolicy\<close> makes for the
  policy: on the actions, or after them on a role pattern, or after both on the
  resources, or after the three on the scopes.
\<close>

definition matcher_error :: "Matcher \<Rightarrow> Request \<Rightarrow> Policy \<Rightarrow> error \<Rightarrow> bool" where
  "matcher_error m r p err =
     (MatchPolicy m p (Actions p) (Action r) = Inl err \<or>
      MatchPolicy m p (Actions p) (Action r) = Inr True \<and>
      (matchRoles m (Roles p) (Role r) = Inl err \<or>
       matchRoles m (Roles p) (Role r) = Inr True \<and>
       (MatchPolicy m p (Resources p) (Resource r) = Inl err \<or>
        MatchPolicy m p (Resources p) (Resource r) = Inr True \<and>
        MatchPolicy m p (Scopes p) (Scope r) = Inl err)))"

section \<open>The conditions\<close>

lemma checkConditions_loop_all:
  "checkConditions_loop L cs r \<longleftrightarrow>
     (\<forall>(key, cond)\<in>set cs.
        Meets L cond (index_meta (RequestMetadataFromContext (Context r)) key) r)"
  by (induction cs) (auto split: if_splits)

text \<open>
  The order in which the entries of the map are visited does not change the result of
  the loop, so the list stands for the map whatever order Go picks.
\<close>

lemma checkConditions_loop_order:
  "set cs = set cs' \<Longrightarrow> checkConditions_loop L cs r = checkConditions_loop L cs' r"
  by (simp add: checkConditions_loop_all)

lemma IPWhitelist_malformed_first:
  "ParseCIDR L ns = None \<Longrightarrow> Meets L (IPWhitelistCondition (ns # rest)) v r = False"
  by (cases v) auto

lemma IPWhitelist_single_network:
  "Meets ipv4_net (IPWhitelistCondition [''10.0.0.0/24'']) (VString ''10.0.0.5'') r \<and>
   \<not> Meets ipv4_net (IPWhitelistCondition [''10.0.0.0/24'']) (VString ''10.0.1.5'') r \<and>
   \<not> Meets ipv4_net (IPWhitelistCondition [''10.0.0.0/24'']) VNil r \<and>
   \<not> Meets ipv4_net (IPWhitelistCondition [''10.0.0.0/24'']) (VBool True) r \<and>
   \<not> Meets ipv4_net (IPWhitelistCondition [''10.0.0.0/24'']) (VInt 5) r"
  by (simp add: ipv4_net_def ipv4_ParseCIDR_def ipv4_ParseIP_def parse_octet_def parse_dec_def
      digit_of_def CIDRMask_def ipv4_Contains_def)

text \<open>
  C4. A malformed CIDR entry should yield no match for that entry only and leave the
  remaining networks to be checked. The loop returns at the first entry that does not
  parse: with the networks \<^verbatim>\<open>not-a-cidr\<close>, \<^verbatim>\<open>10.0.0.0/24\<close> the address
  \<^verbatim>\<open>10.0.0.5\<close> is not met, although it is met by the network \<^verbatim>\<open>10.0.0.0/24\<close> alone,
  and by the same two networks in the other order.
\<close>

theorem IPWhitelist_malformed_entry_blocks_rest:
  "ParseCIDR ipv4_net ''not-a-cidr'' = None \<and>
   Meets ipv4_net (IPWhitelistCondition [''10.0.0.0/24'']) (VString ''10.0.0.5'') r = True \<and>
   Meets ipv4_net (IPWhitelistCondition [''not-a-cidr'', ''10.0.0.0/24''])
     (VString ''10.0.0.5'') r = False \<and>
   Meets ipv4_net (IPWhitelistCondition [''10.0.0.0/24'', ''not-a-cidr''])
     (VString ''10.0.0.5'') r = True"
  by (simp add: ipv4_net_def ipv4_ParseCIDR_def ipv4_ParseIP_def parse_octet_def parse_dec_def
      digit_of_def CIDRMask_def ipv4_Contains_def)

text \<open>
  C5. \<^verbatim>\<open>Meets\<close> of a built-in condition is a function to the booleans, with no error
  and no abort among its results: a value that is not of the shape the condition asserts
  (not a bool for the bool condition, not a string for the other two) gives false, and so
  does the lookup of a key that the metadata does not hold.
\<close>

theorem Meets_builtin_never_fails:
  "is_builtin c \<Longrightarrow>
     ((\<forall>b. v \<noteq> VBool b) \<longrightarrow> \<not> Meets L (BoolCondition cv) v r) \<and>
     ((\<forall>s. v \<noteq> VString s) \<longrightarrow>
        \<not> Meets L RoleEqualsCondition v r \<and> \<not> Meets L (IPWhitelistCondition nets) v r) \<and>
     (Context r key = None \<longrightarrow>
        \<not> Meets L c (index_meta (RequestMetadataFromContext (Context r)) key) r)"
  by (cases c; cases v) (auto simp: index_meta_def RequestMetadataFromContext_def)

theorem Meets_builtin_never_fails_witness:
  "is_builtin (IPWhitelistCondition [''10.0.0.0/24'']) \<and>
   (\<forall>b. VString ''true'' \<noteq> VBool b) \<and>
   \<not> Meets ipv4_net (BoolCondition True) (VString ''true'') req_admin \<and>
   (\<forall>s. VInt 7 \<noteq> VString s) \<and>
   \<not> Meets ipv4_net RoleEqualsCondition (VInt 7) req_admin \<and>
   \<not> Meets ipv4_net (IPWhitelistCondition [''10.0.0.0/24'']) (VInt 7) req_admin \<and>
   Context req_admin ''ip'' = None \<and>
   \<not> Meets ipv4_net (IPWhitelistCondition [''10.0.0.0/24''])
        (index_meta (RequestMetadataFromContext (Context req_admin)) ''ip'') req_admin"
proof -
  have b: "is_builtin (IPWhitelistCondition [''10.0.0.0/24''])"
    by simp
  have k: "Context req_admin ''ip'' = None"
    by (simp add: req_admin_def)
  show ?thesis
    using Meets_builtin_never_fails [OF b, of "VString ''true''" ipv4_net True req_admin
        "[''10.0.0.0/24'']" "''ip''"]
      Meets_builtin_never_fails [OF b, of "VInt 7" ipv4_net True req_admin
        "[''10.0.0.0/24'']" "''ip''"] k
    by simp
qed

text \<open>
  C8. A bool condition configured with true is met exactly by the boolean true: not by
  false, not by the string \<^verbatim>\<open>true\<close>, not by the lookup of an absent key. A
  \<^verbatim>\<open>role_equals\<close> condition is met exactly by the string equal to the role of the
  request, letter case included.
\<close>

theorem bool_and_role_equals_meets:
  "(Meets L (BoolCondition True) v r \<longleftrightarrow> v = VBool True) \<and>
   \<not> Meets L (BoolCondition True) (VBool False) r \<and>
   \<not> Meets L (BoolCondition True) (VString ''true'') r \<and>
   \<not> Meets L (BoolCondition True)
        (index_meta (RequestMetadataFromContext Map.empty) key) r \<and>
   (Meets L RoleEqualsCondition v r \<longleftrightarrow> v = VString (Role r)) \<and>
   \<not> Meets L RoleEqualsCondition (VString ''Admin'') (r\<lparr>Role := ''admin''\<rparr>)"
  by (cases v) (auto simp: index_meta_def RequestMetadataFromContext_def)

section \<open>Evaluating one policy\<close>

lemma evalPolicy_manager_irrelevant:
  "matcher e' = matcher e \<Longrightarrow> evalPolicy L e' r p = evalPolicy L e r p"
  unfolding evalPolicy_def checkConditions_def by (erule ssubst) (rule refl)

lemma evalPolicy_error_iff:
  "evalPolicy L e r p = Inl err \<longleftrightarrow> matcher_error (matcher e) r p err"
  by (auto simp: evalPolicy_def matcher_error_def split: sum.splits if_splits)

lemma matchRoles_error_iff:
  "matchRoles m rps role = Inl err \<longleftrightarrow>
     (\<exists>pre rp suf. rps = pre @ rp # suf \<and> (\<forall>x\<in>set pre. MatchRole m x role = Inr False) \<and>
        MatchRole m rp role = Inl err)"
proof (induction rps)
  case Nil
  then show ?case by simp
next
  case (Cons a rps)
  show ?case
  proof (cases "MatchRole m a role")
    case (Inl x)
    show ?thesis
    proof
      assume "matchRoles m (a # rps) role = Inl err"
      with Inl have "x = err" by simp
      with Inl have "a # rps = [] @ a # rps \<and> (\<forall>x\<in>set []. MatchRole m x role = Inr False) \<and>
        MatchRole m a role = Inl err" by simp
      then show "\<exists>pre rp suf. a # rps = pre @ rp # suf \<and>
        (\<forall>x\<in>set pre. MatchRole m x role = Inr False) \<and> MatchRole m rp role = Inl err"
        by blast
    next
      assume "\<exists>pre rp suf. a # rps = pre @ rp # suf \<and>
        (\<forall>x\<in>set pre. MatchRole m x role = Inr False) \<and> MatchRole m rp role = Inl err"
      then obtain pre rp suf where h: "a # rps = pre @ rp # suf"
        "\<forall>x\<in>set pre. MatchRole m x role = Inr False" "MatchRole m rp role = Inl err"
        by blast
      show "matchRoles m (a # rps) role = Inl err"
      proof (cases pre)
        case Nil
        with h Inl show ?thesis by simp
      next
        case (Cons b pre')
        with h Inl show ?thesis by simp
      qed
    qed
  next
    case (Inr b)
    show ?thesis
    proof (cases b)
      case True
      have "\<not> (\<exists>pre rp suf. a # rps = pre @ rp # suf \<and>
        (\<forall>x\<in>set pre. MatchRole m x role = Inr False) \<and> MatchRole m rp role = Inl err)"
      proof
        assume "\<exists>pre rp suf. a # rps = pre @ rp # suf \<and>
          (\<forall>x\<in>set pre. MatchRole m x role = Inr False) \<and> MatchRole m rp role = Inl err"
        then obtain pre rp suf where h: "a # rps = pre @ rp # suf"
          "\<forall>x\<in>set pre. MatchRole m x role = Inr False" "MatchRole m rp role = Inl err"
          by blast
        show False
        proof (cases pre)
          case Nil
          with h Inr show ?thesis by simp
        next
          case (Cons b pre')
          with h Inr True show ?thesis by simp
        qed
      qed
      with Inr True show ?thesis by simp
    next
      case False
      have "(\<exists>pre rp suf. a # rps = pre @ rp # suf \<and>
          (\<forall>x\<in>set pre. MatchRole m x role = Inr False) \<and> MatchRole m rp role = Inl err) \<longleftrightarrow>
        (\<exists>pre rp suf. rps = pre @ rp # suf \<and>
          (\<forall>x\<in>set pre. MatchRole m x role = Inr False) \<and> MatchRole m rp role = Inl err)"
        (is "?A \<longleftrightarrow> ?B")
      proof
        assume ?A
        then obtain pre rp suf where h: "a # rps = pre @ rp # suf"
          "\<forall>x\<in>set pre. MatchRole m x role = Inr False" "MatchRole m rp role = Inl err"
          by blast
        show ?B
        proof (cases pre)
          case Nil
          with h Inr show ?thesis by simp
        next
          case (Cons b pre')
          with h have "rps = pre' @ rp # suf \<and>
            (\<forall>x\<in>set pre'. MatchRole m x role = Inr False) \<and> MatchRole m rp role = Inl err"
            by simp
          then show ?thesis by blast
        qed
      next
        assume ?B
        then obtain pre rp suf where h: "rps = pre @ rp # suf"
          "\<forall>x\<in>set pre. MatchRole m x role = Inr False" "MatchRole m rp role = Inl err"
          by blast
        with Inr False have "a # rps = (a # pre) @ rp # suf \<and>
            (\<forall>x\<in>set (a # pre). MatchRole m x role = Inr False) \<and> MatchRole m rp role = Inl err"
          by simp
        then show ?A by blast
      qed
      with Inr False Cons.IH show ?thesis by simp
    qed
  qed
qed

text \<open>
  C7. For a policy that passes the action, role, resource and scope stages,
  \<^verbatim>\<open>evalPolicy\<close> returns without error, and it returns true if and only if every
  condition attached to the policy is met by the metadata value looked up under the key
  of that condition. A policy with no conditions passes the condition stage.
\<close>

theorem policy_matches_iff_all_conditions:
  assumes "MatchPolicy (matcher e) p (Actions p) (Action r) = Inr True"
    and "matchRoles (matcher e) (Roles p) (Role r) = Inr True"
    and "MatchPolicy (matcher e) p (Resources p) (Resource r) = Inr True"
    and "MatchPolicy (matcher e) p (Scopes p) (Scope r) = Inr True"
  shows "evalPolicy L e r p =
           Inr (\<forall>(key, cond)\<in>set (Conditions p).
                  Meets L cond (index_meta (RequestMetadataFromContext (Context r)) key) r) \<and>
         (Conditions p = [] \<longrightarrow> evalPolicy L e r p = Inr True) \<and>
         checkConditions L e (p\<lparr>Conditions := []\<rparr>) r"
  using assms by (simp add: evalPolicy_def checkConditions_def checkConditions_loop_all)

theorem policy_matches_iff_all_conditions_witness:
  "evalPolicy ipv4_net (enforcer_of [])
     (req_admin\<lparr>Context := [''mfa'' \<mapsto> VBool True, ''ip'' \<mapsto> VString ''10.0.0.5'']\<rparr>)
     (pol_P1\<lparr>Conditions := [(''mfa'', BoolCondition True),
                             (''ip'', IPWhitelistCondition [''10.0.0.0/24''])]\<rparr>) = Inr True \<and>
   evalPolicy ipv4_net (enforcer_of [])
     (req_admin\<lparr>Context := [''mfa'' \<mapsto> VBool True]\<rparr>)
     (pol_P1\<lparr>Conditions := [(''mfa'', BoolCondition True),
                             (''ip'', IPWhitelistCondition [''10.0.0.0/24''])]\<rparr>) = Inr False \<and>
   evalPolicy ipv4_net (enforcer_of []) req_admin pol_P1 = Inr True"
proof -
  let ?e = "enforcer_of [] :: unit enforcer"
  let ?p = "pol_P1\<lparr>Conditions := [(''mfa'', BoolCondition True),
                             (''ip'', IPWhitelistCondition [''10.0.0.0/24''])]\<rparr>"
  let ?r1 = "req_admin\<lparr>Context := [''mfa'' \<mapsto> VBool True, ''ip'' \<mapsto> VString ''10.0.0.5'']\<rparr>"
  let ?r2 = "req_admin\<lparr>Context := [''mfa'' \<mapsto> VBool True]\<rparr>"
  have s1: "MatchPolicy (matcher ?e) ?p (Actions ?p) (Action ?r1) = Inr True"
    "matchRoles (matcher ?e) (Roles ?p) (Role ?r1) = Inr True"
    "MatchPolicy (matcher ?e) ?p (Resources ?p) (Resource ?r1) = Inr True"
    "MatchPolicy (matcher ?e) ?p (Scopes ?p) (Scope ?r1) = Inr True"
    by (simp_all add: enforcer_of_def NewEnforcer_def star_matcher_def pol_P1_def req_admin_def)
  have s2: "MatchPolicy (matcher ?e) ?p (Actions ?p) (Action ?r2) = Inr True"
    "matchRoles (matcher ?e) (Roles ?p) (Role ?r2) = Inr True"
    "MatchPolicy (matcher ?e) ?p (Resources ?p) (Resource ?r2) = Inr True"
    "MatchPolicy (matcher ?e) ?p (Scopes ?p) (Scope ?r2) = Inr True"
    by (simp_all add: enforcer_of_def NewEnforcer_def star_matcher_def pol_P1_def req_admin_def)
  have s3: "MatchPolicy (matcher ?e) pol_P1 (Actions pol_P1) (Action req_admin) = Inr True"
    "matchRoles (matcher ?e) (Roles pol_P1) (Role req_admin) = Inr True"
    "MatchPolicy (matcher ?e) pol_P1 (Resources pol_P1) (Resource req_admin) = Inr True"
    "MatchPolicy (matcher ?e) pol_P1 (Scopes pol_P1) (Scope req_admin) = Inr True"
    by (simp_all add: enforcer_of_def NewEnforcer_def star_matcher_def pol_P1_def req_admin_def)
  have ip: "Meets ipv4_net (IPWhitelistCondition [''10.0.0.0/24'']) (VString ''10.0.0.5'') r"
    for r
    using IPWhitelist_single_network [of r] by simp
  show ?thesis
    using policy_matches_iff_all_conditions [OF s1, of ipv4_net]
      policy_matches_iff_all_conditions [OF s2, of ipv4_net]
      policy_matches_iff_all_conditions [OF s3, of ipv4_net] ip
    by (simp add: index_meta_def RequestMetadataFromContext_def pol_P1_def)
qed

text \<open>
  C9. A policy with no role pattern never matches, whatever the matcher and whatever
  its other dimensions: \<^verbatim>\<open>evalPolicy\<close> returns false once the action stage has returned
  without error, and the loop of \<^verbatim>\<open>Enforce\<close> goes on to the next candidate with its
  variables unchanged. The empty action, resource and scope sets are the matcher's to
  decide: under a matcher that accepts them, the policy with one role pattern matches
  and the same policy with none does not.
\<close>

theorem empty_roles_never_match:
  "(Roles p = [] \<longrightarrow>
      evalPolicy L e r p \<noteq> Inr True \<and>
      evalPolicy L e r p =
        (case MatchPolicy (matcher e) p (Actions p) (Action r) of
           Inl err \<Rightarrow> Inl err
         | Inr am \<Rightarrow> Inr False) \<and>
      (MatchPolicy (matcher e) p (Actions p) (Action r) = Inr am \<longrightarrow>
         Enforce_loop L e r (p # rest) allow matched = Enforce_loop L e r rest allow matched)) \<and>
   evalPolicy L (NewEnforcer mgr accept_all aud) r
     \<lparr>ID = i, Effect = eff, Actions = [], Roles = [rp], Resources = [], Scopes = [],
      Conditions = []\<rparr> = Inr True \<and>
   evalPolicy L (NewEnforcer mgr accept_all aud) r
     \<lparr>ID = i, Effect = eff, Actions = [], Roles = [], Resources = [], Scopes = [],
      Conditions = []\<rparr> = Inr False"
  by (auto simp: evalPolicy_def NewEnforcer_def accept_all_def checkConditions_def
      split: sum.splits)

theorem empty_roles_never_match_witness:
  "Roles (pol_P1\<lparr>Roles := []\<rparr>) = [] \<and>
   MatchPolicy (matcher (enforcer_of [])) (pol_P1\<lparr>Roles := []\<rparr>)
     (Actions (pol_P1\<lparr>Roles := []\<rparr>)) (Action req_admin) = Inr True \<and>
   evalPolicy ipv4_net (enforcer_of []) req_admin (pol_P1\<lparr>Roles := []\<rparr>) = Inr False \<and>
   Enforce_loop ipv4_net (enforcer_of []) req_admin [pol_P1\<lparr>Roles := []\<rparr>] False [] =
     Inr (False, [])"
proof -
  let ?e = "enforcer_of [] :: unit enforcer"
  let ?p = "pol_P1\<lparr>Roles := []\<rparr>"
  have a: "MatchPolicy (matcher ?e) ?p (Actions ?p) (Action req_admin) = Inr True"
    by (simp add: enforcer_of_def NewEnforcer_def star_matcher_def pol_P1_def req_admin_def)
  show ?thesis
    using empty_roles_never_match [where p = ?p and L = ipv4_net and e = ?e and r = req_admin
        and am = True and rest = "[]" and allow = False and matched = "[]"
        and mgr = "\<lambda>r. Inr []" and aud = "None :: unit option" and i = "''P''"
        and eff = PolicyEffectAllow and rp = "''admin''"] a
    by (simp add: pol_P1_def)
qed

section \<open>The decision\<close>

lemma Enforce_loop_append:
  "Enforce_loop L e r (xs @ ys) allow matched =
     (case Enforce_loop L e r xs allow matched of
        Inl err \<Rightarrow> Inl err
      | Inr (a, m) \<Rightarrow> Enforce_loop L e r ys a m)"
  by (induction xs arbitrary: allow matched) (auto split: sum.splits)

lemma Enforce_loop_completes:
  "\<forall>p\<in>set xs. evalPolicy L e r p = Inr False \<or>
     (evalPolicy L e r p = Inr True \<and> Effect p = PolicyEffectAllow) \<Longrightarrow>
   Enforce_loop L e r xs allow matched =
     Inr (allow \<or> (\<exists>p\<in>set xs. evalPolicy L e r p = Inr True),
          matched @ filter (\<lambda>p. evalPolicy L e r p = Inr True) xs)"
  by (induction xs arbitrary: allow matched) auto

lemma Enforce_loop_deny:
  assumes "\<forall>p\<in>set pre. evalPolicy L e r p = Inr False \<or>
     (evalPolicy L e r p = Inr True \<and> Effect p = PolicyEffectAllow)"
    and "evalPolicy L e r d = Inr True" and "Effect d = PolicyEffectDeny"
  shows "Enforce_loop L e r (pre @ d # suf) allow matched = Inl (denied_by d)"
  using assms by (simp add: Enforce_loop_append Enforce_loop_completes)

lemma Enforce_loop_error:
  assumes "\<forall>p\<in>set pre. evalPolicy L e r p = Inr False \<or>
     (evalPolicy L e r p = Inr True \<and> Effect p = PolicyEffectAllow)"
    and "evalPolicy L e r p = Inl err"
  shows "Enforce_loop L e r (pre @ p # suf) allow matched = Inl err"
  using assms by (simp add: Enforce_loop_append Enforce_loop_completes)

lemma Enforce_loop_stops:
  "d \<in> set xs \<Longrightarrow> evalPolicy L e r d = Inr True \<Longrightarrow> Effect d = PolicyEffectDeny \<Longrightarrow>
   \<exists>err. Enforce_loop L e r xs allow matched = Inl err"
  by (induction xs arbitrary: allow matched) (auto split: sum.splits)

lemma Enforce_loop_cong:
  "matcher e' = matcher e \<Longrightarrow>
   Enforce_loop L e' r xs allow matched = Enforce_loop L e r xs allow matched"
  by (induction xs arbitrary: allow matched)
     (auto simp: evalPolicy_manager_irrelevant [of e' e] split: sum.splits)

lemma Enforce_cong:
  "manager e' = manager e \<Longrightarrow> matcher e' = matcher e \<Longrightarrow>
   Enforce dflt L e' r = Enforce dflt L e r"
  by (simp add: Enforce_def Enforce_loop_cong [of e' e] split: sum.splits)

lemma example_evalPolicy:
  "evalPolicy L (enforcer_of pol) req_admin pol_P1 = Inr True"
  "evalPolicy L (enforcer_of pol) req_admin pol_P2 = Inr True"
  "evalPolicy L (enforcer_of pol) req_admin pol_malformed = Inl bad_pattern"
  by (simp_all add: evalPolicy_def enforcer_of_def NewEnforcer_def star_matcher_def pol_P1_def
      pol_P2_def pol_malformed_def req_admin_def checkConditions_def)

lemma example_fields:
  "manager (enforcer_of pol) r = Inr pol"
  "matcher (enforcer_of pol) = star_matcher"
  "manager (enforcer_failing err) r = Inl err"
  "Effect pol_P1 = PolicyEffectAllow"
  "Effect pol_P2 = PolicyEffectDeny"
  "ID pol_P2 = ''P2''"
  by (simp_all add: enforcer_of_def enforcer_failing_def NewEnforcer_def pol_P1_def pol_P2_def)

text \<open>
  The scenario of the two policies: the denial names \<^verbatim>\<open>P2\<close> in either order of the
  candidates.
\<close>

lemma scenario_deny_either_order:
  "Enforce dflt L (enforcer_of [pol_P1, pol_P2]) req_admin = Some (denied_by pol_P2)"
  "Enforce dflt L (enforcer_of [pol_P2, pol_P1]) req_admin = Some (denied_by pol_P2)"
  by (simp_all add: Enforce_def example_evalPolicy example_fields)

text \<open>
  C1, as amended. When the manager returns the candidates and one of them matches the
  request with effect Deny, \<^verbatim>\<open>Enforce\<close> grants no permission, however many Allow
  policies match. When moreover the matcher returns no error on the candidates before
  the first such policy, \<^verbatim>\<open>Enforce\<close> returns the explicit denial that names the
  identity of that policy, and the candidates after it play no part: the result is the
  same for any other list of them.
\<close>

theorem Enforce_first_deny_wins:
  assumes "manager e r = Inr pol"
    and "d \<in> set pol"
    and "evalPolicy L e r d = Inr True"
    and "Effect d = PolicyEffectDeny"
  shows "Enforce dflt L e r \<noteq> None \<and>
         (pol = pre @ d # suf \<and>
          (\<forall>p\<in>set pre. evalPolicy L e r p = Inr False \<or>
             (evalPolicy L e r p = Inr True \<and> Effect p = PolicyEffectAllow)) \<longrightarrow>
            Enforce dflt L e r =
              Some (ErrRequestDeniedExplicit
                      (ErrorString (''access denied by policy '' @ ID d))) \<and>
            Enforce dflt L (e\<lparr>manager := \<lambda>q. Inr (pre @ d # suf')\<rparr>) r = Enforce dflt L e r)"
proof (rule conjI, goal_cases)
  case 1
  obtain err where "Enforce_loop L e r pol False [] = Inl err"
    using Enforce_loop_stops [OF assms(2-4)] by blast
  with assms(1) show "Enforce dflt L e r \<noteq> None"
    by (simp add: Enforce_def)
next
  case 2
  show ?case
  proof (rule impI)
    assume h: "pol = pre @ d # suf \<and>
      (\<forall>p\<in>set pre. evalPolicy L e r p = Inr False \<or>
         (evalPolicy L e r p = Inr True \<and> Effect p = PolicyEffectAllow))"
    let ?e' = "e\<lparr>manager := \<lambda>q. Inr (pre @ d # suf')\<rparr>"
    from h have pre: "\<forall>p\<in>set pre. evalPolicy L e r p = Inr False \<or>
         (evalPolicy L e r p = Inr True \<and> Effect p = PolicyEffectAllow)"
      by simp
    have loop: "Enforce_loop L e r (pre @ d # s) False [] = Inl (denied_by d)" for s
      using pre assms(3,4) by (rule Enforce_loop_deny)
    have "matcher ?e' = matcher e"
      by simp
    then have "Enforce_loop L ?e' r (pre @ d # suf') False [] =
        Enforce_loop L e r (pre @ d # suf') False []"
      by (rule Enforce_loop_cong)
    with loop [of suf'] have "Enforce_loop L ?e' r (pre @ d # suf') False [] = Inl (denied_by d)"
      by simp
    then show "Enforce dflt L e r =
        Some (ErrRequestDeniedExplicit (ErrorString (''access denied by policy '' @ ID d))) \<and>
      Enforce dflt L ?e' r = Enforce dflt L e r"
      using assms(1) h loop [of suf]
      by (simp add: Enforce_def denied_by_def NewErrRequestDeniedExplicit_def)
  qed
qed

theorem Enforce_first_deny_wins_witness:
  "manager (enforcer_of [pol_P1, pol_P2]) req_admin = Inr [pol_P1, pol_P2] \<and>
   pol_P2 \<in> set [pol_P1, pol_P2] \<and>
   evalPolicy ipv4_net (enforcer_of [pol_P1, pol_P2]) req_admin pol_P1 = Inr True \<and>
   Effect pol_P1 = PolicyEffectAllow \<and>
   evalPolicy ipv4_net (enforcer_of [pol_P1, pol_P2]) req_admin pol_P2 = Inr True \<and>
   Effect pol_P2 = PolicyEffectDeny \<and>
   Enforce PolicyEffectAllow ipv4_net (enforcer_of [pol_P1, pol_P2]) req_admin =
     Some (ErrRequestDeniedExplicit (ErrorString ''access denied by policy P2'')) \<and>
   Enforce PolicyEffectAllow ipv4_net (enforcer_of [pol_malformed, pol_P2]) req_admin \<noteq> None"
proof -
  let ?e = "enforcer_of [pol_P1, pol_P2]"
  let ?f = "enforcer_of [pol_malformed, pol_P2]"
  have m: "manager (enforcer_of pol) req_admin = Inr pol" for pol
    by (simp add: example_fields)
  have i: "pol_P2 \<in> set [pol_P1, pol_P2]" "pol_P2 \<in> set [pol_malformed, pol_P2]"
    by simp_all
  have p2: "evalPolicy ipv4_net (enforcer_of pol) req_admin pol_P2 = Inr True" for pol
    by (rule example_evalPolicy)
  have e2: "Effect pol_P2 = PolicyEffectDeny"
    by (rule example_fields)
  show ?thesis
    using Enforce_first_deny_wins [OF m i(1) p2 e2, of PolicyEffectAllow "[pol_P1]" "[]" "[]"]
      Enforce_first_deny_wins [OF m i(2) p2 e2, of PolicyEffectAllow "[pol_P1]" "[]" "[]"]
    by (simp add: example_evalPolicy example_fields)
qed

text \<open>
  C1 as stated fails: the candidate \<^verbatim>\<open>P2\<close> matches the request with effect Deny, and
  \<^verbatim>\<open>Enforce\<close> returns the error of the matcher on the candidate before it, not an
  explicit denial.
\<close>

theorem Enforce_error_before_deny_counterexample:
  "manager (enforcer_of [pol_malformed, pol_P2]) req_admin = Inr [pol_malformed, pol_P2] \<and>
   evalPolicy ipv4_net (enforcer_of [pol_malformed, pol_P2]) req_admin pol_P2 = Inr True \<and>
   Effect pol_P2 = PolicyEffectDeny \<and>
   Enforce PolicyEffectDeny ipv4_net (enforcer_of [pol_malformed, pol_P2]) req_admin =
     Some (ErrorString ''malformed pattern'')"
  by (simp add: Enforce_def example_evalPolicy example_fields bad_pattern_def)

text \<open>
  C2. When the manager returns the candidates and the loop over them runs to its end
  (no candidate makes the matcher fail, none matches with effect Deny), \<^verbatim>\<open>Enforce\<close>
  returns the implicit denial, a fixed error that carries no policy identity, if no
  candidate matched with effect Allow and the default effect is Deny, and it returns no
  error otherwise.
\<close>

theorem Enforce_completed_loop:
  assumes "manager e r = Inr pol"
    and "\<forall>p\<in>set pol. evalPolicy L e r p = Inr False \<or>
           (evalPolicy L e r p = Inr True \<and> Effect p = PolicyEffectAllow)"
  shows "Enforce dflt L e r =
           (if \<not> (\<exists>p\<in>set pol. evalPolicy L e r p = Inr True \<and> Effect p = PolicyEffectAllow) \<and>
               dflt = PolicyEffectDeny
            then Some (ErrRequestDeniedImplicit
                         (ErrorString ''access denied because no policy allowed access''))
            else None) \<and>
         ((\<exists>p\<in>set pol. evalPolicy L e r p = Inr True \<and> Effect p = PolicyEffectAllow) \<longrightarrow>
            Enforce dflt L e r = None)"
proof -
  have "(\<exists>p\<in>set pol. evalPolicy L e r p = Inr True) \<longleftrightarrow>
        (\<exists>p\<in>set pol. evalPolicy L e r p = Inr True \<and> Effect p = PolicyEffectAllow)"
    using assms(2) by auto
  then show ?thesis
    using assms(1) Enforce_loop_completes [OF assms(2), of False "[]"]
    by (simp add: Enforce_def denied_implicitly_def NewErrRequestDeniedImplicit_def
        errors_New_def)
qed

theorem Enforce_completed_loop_witness:
  "manager (enforcer_of [pol_P1]) req_admin = Inr [pol_P1] \<and>
   evalPolicy ipv4_net (enforcer_of [pol_P1]) req_admin pol_P1 = Inr True \<and>
   Effect pol_P1 = PolicyEffectAllow \<and>
   Enforce PolicyEffectDeny ipv4_net (enforcer_of [pol_P1]) req_admin = None \<and>
   Enforce PolicyEffectDeny ipv4_net (enforcer_of []) req_admin =
     Some (ErrRequestDeniedImplicit
             (ErrorString ''access denied because no policy allowed access'')) \<and>
   Enforce PolicyEffectAllow ipv4_net (enforcer_of []) req_admin = None"
proof -
  have m: "manager (enforcer_of pol) req_admin = Inr pol" for pol
    by (simp add: example_fields)
  have one: "\<forall>p\<in>set [pol_P1]. evalPolicy ipv4_net (enforcer_of [pol_P1]) req_admin p = Inr False \<or>
           (evalPolicy ipv4_net (enforcer_of [pol_P1]) req_admin p = Inr True \<and>
            Effect p = PolicyEffectAllow)"
    by (simp add: example_evalPolicy example_fields)
  have none: "\<forall>p\<in>set []. evalPolicy ipv4_net (enforcer_of []) req_admin p = Inr False \<or>
           (evalPolicy ipv4_net (enforcer_of []) req_admin p = Inr True \<and>
            Effect p = PolicyEffectAllow)"
    by simp
  show ?thesis
    using Enforce_completed_loop [OF m one, of PolicyEffectDeny]
      Enforce_completed_loop [OF m none, of PolicyEffectDeny]
      Enforce_completed_loop [OF m none, of PolicyEffectAllow]
    by (simp add: example_evalPolicy example_fields)
qed

text \<open>
  C3, as amended. An error of \<^verbatim>\<open>FindByRequest\<close> is returned as it is. An error that
  the matcher returns in a call made for a candidate is returned as it is when the
  candidates before it were evaluated without error and without a matching Deny. The
  error is not wrapped: it differs in kind from the two denials when the collaborator
  did not itself give it the kind of a denial.
\<close>

theorem Enforce_propagates_errors:
  "(manager e r = Inl err \<longrightarrow> Enforce dflt L e r = Some err) \<and>
   (manager e r = Inr (pre @ p # suf) \<and>
    (\<forall>q\<in>set pre. evalPolicy L e r q = Inr False \<or>
       (evalPolicy L e r q = Inr True \<and> Effect q = PolicyEffectAllow)) \<and>
    matcher_error (matcher e) r p err \<longrightarrow> Enforce dflt L e r = Some err) \<and>
   (kind_of err = OtherError \<longrightarrow>
      kind_of err \<noteq> kind_of (denied_by p) \<and> kind_of err \<noteq> kind_of denied_implicitly)"
proof (intro conjI impI)
  assume "manager e r = Inl err"
  then show "Enforce dflt L e r = Some err"
    by (simp add: Enforce_def)
next
  assume h: "manager e r = Inr (pre @ p # suf) \<and>
    (\<forall>q\<in>set pre. evalPolicy L e r q = Inr False \<or>
       (evalPolicy L e r q = Inr True \<and> Effect q = PolicyEffectAllow)) \<and>
    matcher_error (matcher e) r p err"
  then have "evalPolicy L e r p = Inl err"
    by (simp add: evalPolicy_error_iff)
  with h have "Enforce_loop L e r (pre @ p # suf) False [] = Inl err"
    by (intro Enforce_loop_error) simp_all
  with h show "Enforce dflt L e r = Some err"
    by (simp add: Enforce_def)
next
  assume "kind_of err = OtherError"
  then show "kind_of err \<noteq> kind_of (denied_by p)"
    by (simp add: denied_by_def NewErrRequestDeniedExplicit_def)
next
  assume "kind_of err = OtherError"
  then show "kind_of err \<noteq> kind_of denied_implicitly"
    by (simp add: denied_implicitly_def NewErrRequestDeniedImplicit_def)
qed

theorem Enforce_propagates_errors_witness:
  "manager (enforcer_failing bad_pattern) req_admin = Inl bad_pattern \<and>
   Enforce PolicyEffectAllow ipv4_net (enforcer_failing bad_pattern) req_admin =
     Some bad_pattern \<and>
   manager (enforcer_of [pol_P1, pol_malformed, pol_P2]) req_admin =
     Inr ([pol_P1] @ pol_malformed # [pol_P2]) \<and>
   matcher_error (matcher (enforcer_of [pol_P1, pol_malformed, pol_P2])) req_admin
     pol_malformed bad_pattern \<and>
   Enforce PolicyEffectAllow ipv4_net (enforcer_of [pol_P1, pol_malformed, pol_P2]) req_admin =
     Some bad_pattern \<and>
   kind_of bad_pattern = OtherError \<and>
   kind_of bad_pattern \<noteq> kind_of (denied_by pol_P2) \<and>
   kind_of bad_pattern \<noteq> kind_of denied_implicitly"
proof -
  let ?e = "enforcer_of [pol_P1, pol_malformed, pol_P2]"
  have me: "matcher_error (matcher ?e) req_admin pol_malformed bad_pattern"
    by (simp add: matcher_error_def example_fields star_matcher_def pol_malformed_def)
  have k: "kind_of bad_pattern = OtherError"
    by (simp add: bad_pattern_def)
  show ?thesis
    using Enforce_propagates_errors [of "enforcer_failing bad_pattern" req_admin bad_pattern
        PolicyEffectAllow ipv4_net "[]" pol_P2 "[]"]
      Enforce_propagates_errors [of ?e req_admin bad_pattern
        PolicyEffectAllow ipv4_net "[pol_P1]" pol_malformed "[pol_P2]"] me k
    by (simp add: example_evalPolicy example_fields)
qed

text \<open>
  C3 as stated fails: a manager that fails with an error of the implicit-denial kind
  makes \<^verbatim>\<open>Enforce\<close> return that error, which is the very result of an implicit denial
  (no candidates under the default effect Deny).
\<close>

theorem Enforce_denial_from_manager_counterexample:
  "manager (enforcer_failing denied_implicitly) req_admin = Inl denied_implicitly \<and>
   Enforce PolicyEffectDeny ipv4_net (enforcer_failing denied_implicitly) req_admin =
     Some denied_implicitly \<and>
   kind_of denied_implicitly = ImplicitDenial \<and>
   Enforce PolicyEffectDeny ipv4_net (enforcer_of []) req_admin = Some denied_implicitly"
  by (simp add: Enforce_def example_fields denied_implicitly_def
      NewErrRequestDeniedImplicit_def)

text \<open>
  C10. \<^verbatim>\<open>Enforce\<close> does not depend on the auditor: two enforcers built from the same
  manager and the same matcher return the same result for every request and default
  effect, whatever their auditors are, nil included.
\<close>

theorem Enforce_auditor_irrelevant:
  "Enforce dflt L (NewEnforcer mgr mt aud) r = Enforce dflt L (NewEnforcer mgr mt aud') r"
  by (rule Enforce_cong) (simp_all add: NewEnforcer_def)

section \<open>Building conditions from options\<close>

lemma NewConditions_loop_append:
  "NewConditions_loop dec reg (xs @ ys) c =
     (case NewConditions_loop dec reg xs c of
        Inl err \<Rightarrow> Inl err
      | Inr c' \<Rightarrow> NewConditions_loop dec reg ys c')"
  by (induction xs arbitrary: c) (auto split: option.splits sum.splits)

lemma NewConditions_loop_untouched:
  "NewConditions_loop dec reg xs c = Inr m \<Longrightarrow>
   \<forall>co\<in>set xs. Name co = n \<longrightarrow> reg (Type co) = None \<Longrightarrow>
   map_of m n = map_of c n"
proof (induction xs arbitrary: c)
  case Nil
  then show ?case by simp
next
  case (Cons co xs)
  from Cons.prems(2) have rest: "\<forall>co\<in>set xs. Name co = n \<longrightarrow> reg (Type co) = None"
    by simp
  show ?case
  proof (cases "reg (Type co)")
    case None
    with Cons.prems(1) have "NewConditions_loop dec reg xs c = Inr m"
      by simp
    then show ?thesis
      using rest by (rule Cons.IH)
  next
    case (Some cf)
    with Cons.prems(2) have ne: "Name co \<noteq> n"
      by auto
    from Some Cons.prems(1) obtain nc where
      "NewConditions_loop dec reg xs (AList.update (Name co) nc c) = Inr m"
      by (auto split: sum.splits if_splits)
    then have "map_of m n = map_of (AList.update (Name co) nc c) n"
      using rest by (rule Cons.IH)
    with ne show ?thesis
      by (simp add: update_conv')
  qed
qed

lemma NewConditions_loop_succeeds:
  "\<forall>co\<in>set xs. \<forall>cf. reg (Type co) = Some cf \<and> Options co \<noteq> [] \<longrightarrow>
      (\<exists>nc. dec (Options co) cf = Inr nc) \<Longrightarrow>
   \<exists>m. NewConditions_loop dec reg xs c = Inr m"
proof (induction xs arbitrary: c)
  case Nil
  then show ?case by simp
next
  case (Cons co xs)
  then have IH: "\<exists>m. NewConditions_loop dec reg xs c' = Inr m" for c'
    by simp
  show ?case
  proof (cases "reg (Type co)")
    case None
    with IH show ?thesis by simp
  next
    case (Some cf)
    show ?thesis
    proof (cases "Options co = []")
      case True
      with Some IH show ?thesis by simp
    next
      case False
      with Some Cons.prems obtain nc where "dec (Options co) cf = Inr nc"
        by auto
      with Some False IH show ?thesis by simp
    qed
  qed
qed

lemma default_registry_simps:
  "registry_or_default None ''nope'' = None"
  "registry_or_default None ''bool'' = Some (BoolCondition False)"
  "registry_or_default None ''role_equals'' = Some RoleEqualsCondition"
  "registry_or_default None ''ip_whitelist'' = Some (IPWhitelistCondition [])"
  by (simp_all add: registry_or_default_def NewConditionRegistry_def default_builders_def)

lemma example_builds:
  "NewConditions example_decoder [opt_plain, opt_unknown, opt_bool] None =
     Inr [(''mine'', RoleEqualsCondition), (''k'', BoolCondition True)]"
  "NewConditions example_decoder [opt_plain, opt_bool] None =
     Inr [(''mine'', RoleEqualsCondition), (''k'', BoolCondition True)]"
  "NewConditions example_decoder [opt_plain] None = Inr [(''mine'', RoleEqualsCondition)]"
  "NewConditions example_decoder [opt_plain, opt_bad, opt_bool] None = Inl cannot_decode"
  by (simp_all add: NewConditions_def default_registry_simps opt_unknown_def opt_bool_def
      opt_bad_def example_decoder_def opt_plain_def)

text \<open>
  C6, as amended. \<^verbatim>\<open>NewConditions\<close> skips an entry whose type is not in the registry:
  the result, error or map, is the one of the list without the entry, so a name is a key
  of the map only if an entry of a registered type carries it. The build succeeds when
  every non-empty option bag of an entry of a registered type decodes. For an entry of a
  registered type whose non-empty bag does not decode, after entries that build, the
  result is the error of the decoder whatever follows. In a build that succeeds, the
  name of an entry of a registered type (not its type) is the key of the fresh condition
  of the factory when its bag is empty, and of the condition decoded from the bag when
  it is not, provided no later entry of a registered type has the same name.
\<close>

theorem NewConditions_entries:
  "(registry_or_default reg (Type co) = None \<longrightarrow>
      NewConditions dec (pre @ co # post) reg = NewConditions dec (pre @ post) reg) \<and>
   (NewConditions dec opts reg = Inr m \<and>
    (\<forall>co'\<in>set opts. Name co' = n \<longrightarrow> registry_or_default reg (Type co') = None) \<longrightarrow>
      map_of m n = None) \<and>
   ((\<forall>co'\<in>set opts. \<forall>cf'. registry_or_default reg (Type co') = Some cf' \<and> Options co' \<noteq> [] \<longrightarrow>
        (\<exists>nc. dec (Options co') cf' = Inr nc)) \<longrightarrow>
      (\<exists>m'. NewConditions dec opts reg = Inr m')) \<and>
   (registry_or_default reg (Type co) = Some cf \<and> Options co \<noteq> [] \<and>
    dec (Options co) cf = Inl err \<and> NewConditions dec pre reg = Inr m0 \<longrightarrow>
      NewConditions dec (pre @ co # post) reg = Inl err) \<and>
   (registry_or_default reg (Type co) = Some cf \<and>
    NewConditions dec (pre @ co # post) reg = Inr m1 \<and>
    (\<forall>co'\<in>set post. Name co' = Name co \<longrightarrow> registry_or_default reg (Type co') = None) \<longrightarrow>
      (if Options co = [] then map_of m1 (Name co) = Some cf
       else \<exists>nc. dec (Options co) cf = Inr nc \<and> map_of m1 (Name co) = Some nc))"
proof (intro conjI impI)
  assume "registry_or_default reg (Type co) = None"
  then show "NewConditions dec (pre @ co # post) reg = NewConditions dec (pre @ post) reg"
    by (simp add: NewConditions_def NewConditions_loop_append split: sum.splits)
next
  assume h: "NewConditions dec opts reg = Inr m \<and>
    (\<forall>co'\<in>set opts. Name co' = n \<longrightarrow> registry_or_default reg (Type co') = None)"
  then have "NewConditions_loop dec (registry_or_default reg) opts [] = Inr m"
    by (simp add: NewConditions_def)
  moreover from h have
    "\<forall>co'\<in>set opts. Name co' = n \<longrightarrow> registry_or_default reg (Type co') = None"
    by simp
  ultimately have "map_of m n = map_of [] n"
    by (rule NewConditions_loop_untouched)
  then show "map_of m n = None" by simp
next
  assume "\<forall>co'\<in>set opts. \<forall>cf'. registry_or_default reg (Type co') = Some cf' \<and> Options co' \<noteq> [] \<longrightarrow>
        (\<exists>nc. dec (Options co') cf' = Inr nc)"
  then show "\<exists>m'. NewConditions dec opts reg = Inr m'"
    unfolding NewConditions_def by (rule NewConditions_loop_succeeds)
next
  assume "registry_or_default reg (Type co) = Some cf \<and> Options co \<noteq> [] \<and>
    dec (Options co) cf = Inl err \<and> NewConditions dec pre reg = Inr m0"
  then show "NewConditions dec (pre @ co # post) reg = Inl err"
    by (simp add: NewConditions_def NewConditions_loop_append)
next
  assume h: "registry_or_default reg (Type co) = Some cf \<and>
    NewConditions dec (pre @ co # post) reg = Inr m1 \<and>
    (\<forall>co'\<in>set post. Name co' = Name co \<longrightarrow> registry_or_default reg (Type co') = None)"
  let ?g = "registry_or_default reg"
  from h have later:
    "\<forall>co'\<in>set post. Name co' = Name co \<longrightarrow> registry_or_default reg (Type co') = None"
    by simp
  from h obtain c1 where c1: "NewConditions_loop dec ?g pre [] = Inr c1"
    "NewConditions_loop dec ?g (co # post) c1 = Inr m1"
    by (auto simp: NewConditions_def NewConditions_loop_append split: sum.splits)
  show "if Options co = [] then map_of m1 (Name co) = Some cf
       else \<exists>nc. dec (Options co) cf = Inr nc \<and> map_of m1 (Name co) = Some nc"
  proof (cases "Options co = []")
    case True
    with h c1 have "NewConditions_loop dec ?g post (AList.update (Name co) cf c1) = Inr m1"
      by simp
    then have "map_of m1 (Name co) = map_of (AList.update (Name co) cf c1) (Name co)"
      using later by (rule NewConditions_loop_untouched)
    with True show ?thesis by (simp add: update_conv')
  next
    case False
    with h c1 obtain nc where nc: "dec (Options co) cf = Inr nc"
      "NewConditions_loop dec ?g post (AList.update (Name co) nc c1) = Inr m1"
      by (auto split: sum.splits)
    from nc(2) have "map_of m1 (Name co) = map_of (AList.update (Name co) nc c1) (Name co)"
      using later by (rule NewConditions_loop_untouched)
    with False nc show ?thesis by (simp add: update_conv')
  qed
qed

theorem NewConditions_entries_witness:
  "registry_or_default None (Type opt_unknown) = None \<and>
   NewConditions example_decoder ([opt_plain] @ opt_unknown # [opt_bool]) None =
     NewConditions example_decoder ([opt_plain] @ [opt_bool]) None \<and>
   NewConditions example_decoder ([opt_plain] @ [opt_bool]) None =
     Inr [(''mine'', RoleEqualsCondition), (''k'', BoolCondition True)] \<and>
   map_of [(''mine'', RoleEqualsCondition), (''k'', BoolCondition True)] ''bool'' = None \<and>
   registry_or_default None (Type opt_bad) = Some (BoolCondition False) \<and>
   Options opt_bad \<noteq> [] \<and>
   example_decoder (Options opt_bad) (BoolCondition False) = Inl cannot_decode \<and>
   NewConditions example_decoder ([opt_plain] @ opt_bad # [opt_bool]) None =
     Inl cannot_decode \<and>
   map_of [(''mine'', RoleEqualsCondition), (''k'', BoolCondition True)] (Name opt_bool) =
     Some (BoolCondition True)"
proof -
  let ?m = "[(''mine'', RoleEqualsCondition), (''k'', BoolCondition True)]"
  have u: "registry_or_default None (Type opt_unknown) = None"
    by (simp add: opt_unknown_def default_registry_simps)
  have b: "registry_or_default None (Type opt_bad) = Some (BoolCondition False)"
    "registry_or_default None (Type opt_bool) = Some (BoolCondition False)"
    "registry_or_default None (Type opt_plain) = Some RoleEqualsCondition"
    by (simp_all add: opt_bad_def opt_bool_def opt_plain_def default_registry_simps)
  have d: "Options opt_bad \<noteq> []"
    "example_decoder (Options opt_bad) (BoolCondition False) = Inl cannot_decode"
    "Options opt_bool \<noteq> []"
    "example_decoder (Options opt_bool) (BoolCondition False) = Inr (BoolCondition True)"
    by (simp_all add: opt_bad_def opt_bool_def example_decoder_def)
  have n: "Name opt_bool = ''k''" "Name opt_unknown = ''k''" "Name opt_plain = ''mine''"
    "Name opt_bad = ''b''"
    by (simp_all add: opt_bool_def opt_unknown_def opt_plain_def opt_bad_def)
  show ?thesis
    using NewConditions_entries [of None opt_unknown example_decoder "[opt_plain]" "[opt_bool]"
        "[opt_plain, opt_unknown, opt_bool]" ?m "''bool''" "BoolCondition False" cannot_decode
        "[(''mine'', RoleEqualsCondition)]" ?m]
      NewConditions_entries [of None opt_bad example_decoder "[opt_plain]" "[opt_bool]"
        "[opt_plain, opt_unknown, opt_bool]" ?m "''bool''" "BoolCondition False" cannot_decode
        "[(''mine'', RoleEqualsCondition)]" ?m]
      NewConditions_entries [of None opt_bool example_decoder "[opt_plain, opt_unknown]" "[]"
        "[opt_plain, opt_unknown, opt_bool]" ?m "''bool''" "BoolCondition False" cannot_decode
        "[(''mine'', RoleEqualsCondition)]" ?m]
      u b d n
    by (simp add: example_builds)
qed

text \<open>
  C6 as stated fails: the type of the first entry is not in the registry, and its name
  is a key of the result all the same, stored by the second entry.
\<close>

theorem NewConditions_shared_name_counterexample:
  "registry_or_default None (Type opt_unknown) = None \<and>
   NewConditions example_decoder [opt_unknown, opt_bool] None =
     Inr [(''k'', BoolCondition True)] \<and>
   map_of [(''k'', BoolCondition True)] (Name opt_unknown) = Some (BoolCondition True)"
  by (simp add: NewConditions_def default_registry_simps opt_unknown_def opt_bool_def
      example_decoder_def)

end
